theory Spec2Isabelle
  imports Complex_Main "HOL-Library.AList"
begin

section \<open>Live line plots of a streamed buffer (wizardhat/plot/plot.py)\<close>

text \<open>
  The module defines the class \<^verbatim>\<open>Lines\<close>: a constructor, the start command
  \<^verbatim>\<open>run_server\<close>, the per-connection set-up \<^verbatim>\<open>_app_manager\<close> with
  \<^verbatim>\<open>_set_layout\<close> and \<^verbatim>\<open>_set_callbacks\<close>, the update callback
  \<^verbatim>\<open>_update\<close> and the worker loop \<^verbatim>\<open>_get_new_samples\<close>.
  Every method is embedded as a function on an explicit object state; the
  base class \<^verbatim>\<open>Plotter\<close> only stores its argument and nothing uses it. Python
  dictionaries are association lists in insertion order, written with
  \<open>AList.update\<close> and read with \<open>map_of\<close>; exceptions are values of
  \<open>py_error\<close>.
\<close>

subsection \<open>Data model\<close>

datatype py_error = KeyError | AttributeError | IndexError | ValueError

text \<open>A dictionary from column names to columns: the batch \<^verbatim>\<open>data_dict\<close>
  and the content of the renderer's data source.\<close>

type_synonym 'v columns = "(string \<times> 'v list) list"

text \<open>
  The collaborator \<^verbatim>\<open>data.Data\<close> is defined outside this module. The
  module reads five of its attributes: \<^verbatim>\<open>dtype.names\<close>,
  \<^verbatim>\<open>ch_names\<close>, \<^verbatim>\<open>data\<close>, \<^verbatim>\<open>last_samples\<close> (both indexed by
  a field name) and the event \<^verbatim>\<open>updated\<close>. Indexing by a name that is not
  a field raises in Python, so both views are association lists and a lookup
  can fail.
\<close>

record 'v Data =
  dtype_names :: "string list"
  ch_names :: "string list"
  data :: "'v columns"
  last_samples :: "'v columns"
  updated :: bool

subsection \<open>The streaming primitive of the data source\<close>

text \<open>
  Modelled from the spec: \<^verbatim>\<open>ColumnDataSource.stream(new_data, rollover)\<close>
  belongs to the rendering framework and is not in the repository. Section 4.2
  of the specification describes it: it "appends the batch's values to each
  channel's window and evicts from the front until the window length
  constraint holds". \<open>evict\<close> is that loop, \<open>stream\<close> applies it to every
  column of the source; a column for which the batch has no entry receives
  nothing.
\<close>

function evict :: "nat \<Rightarrow> 'v list \<Rightarrow> 'v list" where
  "evict rollover xs = (if length xs \<le> rollover then xs else evict rollover (tl xs))"
  by pat_completeness auto
termination
  by (relation "measure (\<lambda>(rollover, xs). length xs)") auto

declare evict.simps [simp del]

definition stream :: "'v columns \<Rightarrow> 'v columns \<Rightarrow> nat \<Rightarrow> 'v columns" where
  "stream src new_data rollover =
     map (\<lambda>(name, xs).
            (name, evict rollover
                     (xs @ (case map_of new_data name of None \<Rightarrow> [] | Some ys \<Rightarrow> ys))))
         src"

subsection \<open>Figures, the render context and the object state\<close>

text \<open>One line glyph, as \<^verbatim>\<open>p.line(x='time', y=ch, alpha=0.8, line_width=2,
  color=self._colors[i], source=self._source)\<close> draws it. The glyph reads its
  values from the shared data source of the object; the source is not copied
  into the glyph.\<close>

record line_glyph =
  line_x :: string
  line_y :: string
  line_alpha :: real
  line_width :: nat
  line_color :: string

record figure =
  plot_height :: nat
  tools :: string
  x_axis_type :: string
  y_axis_location :: string
  y_range :: "int \<times> int"
  x_range_follow :: string
  x_range_follow_interval :: nat
  x_range_range_padding :: nat
  yaxis_axis_label :: string
  background_fill_color :: string
  glyphs :: "line_glyph list"

record gridplot =
  children :: "figure list list"
  toolbar_location :: string
  plot_width :: nat

text \<open>The render context is the document of one connected viewer. A pending
  next-tick callback is \<^verbatim>\<open>partial(self._update, data_dict)\<close>; it is kept
  as the batch it is bound to.\<close>

record 'v document =
  roots :: "gridplot list"
  title :: string
  next_tick_callbacks :: "'v columns list"

text \<open>The calls the object makes on its server, its thread and the loop.\<close>

datatype call =
  Server_start
  | IOLoop_add_callback_show string
  | Thread_start
  | IOLoop_start

text \<open>The attributes of a \<^verbatim>\<open>Lines\<close> object. \<^verbatim>\<open>_curdoc\<close> and
  \<^verbatim>\<open>plots\<close> are not set by the constructor: \<open>None\<close> is the missing
  attribute, whose read raises \<^verbatim>\<open>AttributeError\<close>.\<close>

record 'v Lines =
  self_data :: "'v Data"
  source :: "'v columns"
  n_samples :: nat
  colors :: "string list"
  bgcolor :: string
  curdoc :: "'v document option"
  plots :: "figure list list option"
  calls :: "call list"

text \<open>How a call ends: it returns, it raises, or control stays inside it
  (\<^verbatim>\<open>io_loop.start()\<close> runs the loop and hands control back only when the
  loop is stopped; the module never stops it).\<close>

datatype 'a outcome = Returned 'a | Raised py_error | Running 'a

subsection \<open>The start command\<close>

definition server_start :: "'v Lines \<Rightarrow> 'v Lines" where
  "server_start self = self\<lparr>calls := calls self @ [Server_start]\<rparr>"

definition io_loop_add_callback_show :: "string \<Rightarrow> 'v Lines \<Rightarrow> 'v Lines" where
  "io_loop_add_callback_show path self =
     self\<lparr>calls := calls self @ [IOLoop_add_callback_show path]\<rparr>"

definition update_thread_start :: "'v Lines \<Rightarrow> 'v Lines" where
  "update_thread_start self = self\<lparr>calls := calls self @ [Thread_start]\<rparr>"

definition io_loop_start :: "'v Lines \<Rightarrow> 'v Lines outcome" where
  "io_loop_start self = Running (self\<lparr>calls := calls self @ [IOLoop_start]\<rparr>)"

definition run_server :: "'v Lines \<Rightarrow> 'v Lines outcome" where
  "run_server self =
     io_loop_start
       (update_thread_start
          (io_loop_add_callback_show ''/''
             (server_start self)))"

subsection \<open>The constructor\<close>

text \<open>
  \<^verbatim>\<open>all_palettes\<close> is a table of the plotting library: a dictionary from a
  palette name to a dictionary from a size to a list of colours. The
  constructor takes it as the argument \<open>palettes\<close>.

  Lines 75 to 77 of the source read
  \<^verbatim>\<open>data_dict = {name: self.data.data[name][:n_samples]\<close>,
  \<^verbatim>\<open>#for name in self.data.dtype.names}\<close>,
  \<^verbatim>\<open>self._source = ColumnDataSource(data_dict)\<close>:
  the generator clause of the comprehension and its closing brace stand in a
  comment, so the statement that computes \<^verbatim>\<open>data_dict\<close> is not complete.
  The constructor below takes the value of \<^verbatim>\<open>data_dict\<close> as an argument
  and computes nothing in its place; no theorem rests on a reading of that
  statement.

  The keyword arguments are options: \<open>None\<close> is the omitted argument, which
  takes the default of the signature (\<^verbatim>\<open>n_samples=5000\<close>,
  \<^verbatim>\<open>palette='Category10'\<close>, \<^verbatim>\<open>bgcolor="white"\<close>,
  \<^verbatim>\<open>autostart=True\<close>).
\<close>

type_synonym palette_table = "(string \<times> (nat \<times> string list) list) list"

definition lookup_colors :: "palette_table \<Rightarrow> string \<Rightarrow> nat \<Rightarrow> py_error + string list" where
  "lookup_colors palettes palette n =
     (case map_of palettes palette of
        None \<Rightarrow> Inl KeyError
      | Some sizes \<Rightarrow>
          (case map_of sizes n of
             None \<Rightarrow> Inl KeyError
           | Some cs \<Rightarrow> Inr cs))"

definition Lines_init ::
  "palette_table \<Rightarrow> 'v columns \<Rightarrow> 'v Data \<Rightarrow> nat option \<Rightarrow> string option \<Rightarrow>
   string option \<Rightarrow> bool option \<Rightarrow> 'v Lines outcome" where
  "Lines_init palettes data_dict d n_samples_arg palette_arg bgcolor_arg autostart_arg =
     (let n = (case n_samples_arg of None \<Rightarrow> 5000 | Some n \<Rightarrow> n);
          palette = (case palette_arg of None \<Rightarrow> ''Category10'' | Some p \<Rightarrow> p);
          bg = (case bgcolor_arg of None \<Rightarrow> ''white'' | Some c \<Rightarrow> c);
          autostart = (case autostart_arg of None \<Rightarrow> True | Some a \<Rightarrow> a)
      in case lookup_colors palettes palette (length (ch_names d)) of
           Inl e \<Rightarrow> Raised e
         | Inr cs \<Rightarrow>
             (let self = \<lparr>self_data = d, source = data_dict, n_samples = n, colors = cs,
                          bgcolor = bg, curdoc = None, plots = None, calls = []\<rparr>
              in if autostart then run_server self else Returned self))"

subsection \<open>Per-connection set-up\<close>

definition new_figure :: "string \<Rightarrow> string \<Rightarrow> string \<Rightarrow> figure" where
  "new_figure bg ch color =
     \<lparr>plot_height = 100,
      tools = ''xpan,xwheel_zoom,xbox_zoom,reset'',
      x_axis_type = ''datetime'',
      y_axis_location = ''right'',
      y_range = (- 10, 10),
      x_range_follow = ''end'',
      x_range_follow_interval = 5,
      x_range_range_padding = 0,
      yaxis_axis_label = ch,
      background_fill_color = bg,
      glyphs = [\<lparr>line_x = ''time'', line_y = ch, line_alpha = 0.8, line_width = 2,
                 line_color = color\<rparr>]\<rparr>"

text \<open>The loop of \<^verbatim>\<open>_set_layout\<close> over \<^verbatim>\<open>enumerate(self.data.ch_names)\<close>;
  \<^verbatim>\<open>self._colors[i]\<close> raises \<^verbatim>\<open>IndexError\<close> past the end of the list.\<close>

fun set_layout_loop ::
  "string list \<Rightarrow> string \<Rightarrow> (nat \<times> string) list \<Rightarrow> figure list list \<Rightarrow>
   py_error + figure list list" where
  "set_layout_loop cs bg [] ps = Inr ps"
| "set_layout_loop cs bg ((i, ch) # rest) ps =
     (if i < length cs
      then set_layout_loop cs bg rest (ps @ [[new_figure bg ch (cs ! i)]])
      else Inl IndexError)"

definition set_layout :: "'v Lines \<Rightarrow> py_error + 'v Lines" where
  "set_layout self =
     (case set_layout_loop (colors self) (bgcolor self)
             (enumerate 0 (ch_names (self_data self))) [] of
        Inl e \<Rightarrow> Inl e
      | Inr ps \<Rightarrow> Inr (self\<lparr>plots := Some ps\<rparr>))"

definition set_callbacks :: "'v Lines \<Rightarrow> py_error + 'v Lines" where
  "set_callbacks self =
     (case curdoc self of
        None \<Rightarrow> Inl AttributeError
      | Some doc \<Rightarrow>
          (case plots self of
             None \<Rightarrow> Inl AttributeError
           | Some ps \<Rightarrow>
               Inr (self\<lparr>curdoc := Some (doc\<lparr>
                      roots := roots doc @
                        [\<lparr>children = ps, toolbar_location = ''left'', plot_width = 1000\<rparr>],
                      title := ''Dummy EEG Stream''\<rparr>)\<rparr>)))"

definition app_manager :: "'v document \<Rightarrow> 'v Lines \<Rightarrow> py_error + 'v Lines" where
  "app_manager doc self =
     (case set_layout (self\<lparr>curdoc := Some doc\<rparr>) of
        Inl e \<Rightarrow> Inl e
      | Inr self' \<Rightarrow> set_callbacks self')"

subsection \<open>The update callback\<close>

definition Lines_update :: "'v columns \<Rightarrow> 'v Lines \<Rightarrow> 'v Lines" where
  "Lines_update data_dict self =
     self\<lparr>source := stream (source self) data_dict (n_samples self)\<rparr>"

subsection \<open>The forwarding loop\<close>

text \<open>The comprehension \<^verbatim>\<open>{name: self.data.last_samples[name] for name in
  self.data.dtype.names}\<close>: names are taken in order, a name that the view
  does not hold raises, and a repeated name overwrites its entry.\<close>

fun get_batch :: "'v columns \<Rightarrow> string list \<Rightarrow> 'v columns \<Rightarrow> py_error + 'v columns" where
  "get_batch view [] acc = Inr acc"
| "get_batch view (name # names) acc =
     (case map_of view name of
        None \<Rightarrow> Inl ValueError
      | Some col \<Rightarrow> get_batch view names (AList.update name col acc))"

definition add_next_tick_callback :: "'v columns \<Rightarrow> 'v document \<Rightarrow> 'v document" where
  "add_next_tick_callback data_dict doc =
     doc\<lparr>next_tick_callbacks := next_tick_callbacks doc @ [data_dict]\<rparr>"

text \<open>The body of the \<^verbatim>\<open>try\<close>: reading \<^verbatim>\<open>self._curdoc\<close> raises
  \<^verbatim>\<open>AttributeError\<close> while no connection has set it.\<close>

definition handoff :: "'v columns \<Rightarrow> 'v Lines \<Rightarrow> py_error + 'v Lines" where
  "handoff data_dict self =
     (case curdoc self of
        None \<Rightarrow> Inl AttributeError
      | Some doc \<Rightarrow> Inr (self\<lparr>curdoc := Some (add_next_tick_callback data_dict doc)\<rparr>))"

definition updated_clear :: "'v Lines \<Rightarrow> 'v Lines" where
  "updated_clear self = self\<lparr>self_data := (self_data self)\<lparr>updated := False\<rparr>\<rparr>"

text \<open>One pass through the body of \<^verbatim>\<open>while True\<close>. \<open>None\<close> is the thread
  blocked in \<^verbatim>\<open>updated.wait()\<close>; \<^verbatim>\<open>except AttributeError: pass\<close>
  continues with the object as it was, any other exception leaves the loop.\<close>

definition get_new_samples_cycle :: "'v Lines \<Rightarrow> (py_error + 'v Lines) option" where
  "get_new_samples_cycle self =
     (if \<not> updated (self_data self) then None
      else Some
        (case get_batch (last_samples (self_data self)) (dtype_names (self_data self)) [] of
           Inl e \<Rightarrow> Inl e
         | Inr data_dict \<Rightarrow>
             (case handoff data_dict self of
                Inl AttributeError \<Rightarrow> Inr (updated_clear self)
              | Inl e \<Rightarrow> Inl e
              | Inr self' \<Rightarrow> Inr (updated_clear self'))))"

text \<open>The loop itself never ends. It is run here over the finite list of what
  the producer did to the shared \<^verbatim>\<open>Data\<close> object before each wake-up; the
  result is the object at the next \<^verbatim>\<open>wait()\<close>, \<open>None\<close> when a wait never
  ends, or the exception that left the loop.\<close>

fun get_new_samples ::
  "('v Data \<Rightarrow> 'v Data) list \<Rightarrow> 'v Lines \<Rightarrow> (py_error + 'v Lines) option" where
  "get_new_samples [] self = Some (Inr self)"
| "get_new_samples (produce # rest) self =
     (case get_new_samples_cycle (self\<lparr>self_data := produce (self_data self)\<rparr>) of
        None \<Rightarrow> None
      | Some (Inl e) \<Rightarrow> Some (Inl e)
      | Some (Inr self') \<Rightarrow> get_new_samples rest self')"

text \<open>
  Modelled from the spec: the cooperative loop belongs to the serving
  framework. Section 5: the update "is scheduled as a deferred callback onto
  the next loop iteration" and the loop processes "one callback at a time to
  completion". One iteration runs the pending callbacks of the render context
  in the order they were added and leaves none pending.
\<close>

definition io_loop_iteration :: "'v Lines \<Rightarrow> 'v Lines" where
  "io_loop_iteration self =
     (case curdoc self of
        None \<Rightarrow> self
      | Some doc \<Rightarrow>
          fold Lines_update (next_tick_callbacks doc)
            (self\<lparr>curdoc := Some (doc\<lparr>next_tick_callbacks := []\<rparr>)\<rparr>))"

subsection \<open>Properties of windows and batches\<close>

text \<open>All columns of a dictionary have one length.\<close>

definition equal_lengths :: "'v columns \<Rightarrow> bool" where
  "equal_lengths cols =
     (\<forall>c \<in> set cols. \<forall>c' \<in> set cols. length (snd c) = length (snd c'))"

text \<open>The batch has a column for every column of the window.\<close>

definition covers :: "'v columns \<Rightarrow> 'v columns \<Rightarrow> bool" where
  "covers data_dict src = (fst ` set src \<subseteq> fst ` set data_dict)"

subsection \<open>A concrete object for the examples\<close>

text \<open>The entry of the default palette in the library's table: it has the
  sizes 3 to 10, each the first colours of a list of ten.\<close>

definition Category10_10 :: "string list" where
  "Category10_10 =
     [''#1f77b4'', ''#ff7f0e'', ''#2ca02c'', ''#d62728'', ''#9467bd'',
      ''#8c564b'', ''#e377c2'', ''#7f7f7f'', ''#bcbd22'', ''#17becf'']"

definition Category10 :: "(nat \<times> string list) list" where
  "Category10 =
     [(3, take 3 Category10_10), (4, take 4 Category10_10),
      (5, take 5 Category10_10), (6, take 6 Category10_10),
      (7, take 7 Category10_10), (8, take 8 Category10_10),
      (9, take 9 Category10_10), (10, Category10_10)]"

definition example_palettes :: palette_table where
  "example_palettes = [(''Category10'', Category10)]"

definition example_data :: "int Data" where
  "example_data =
     \<lparr>dtype_names = [''time'', ''ch1'', ''ch2'', ''ch3''],
      ch_names = [''ch1'', ''ch2'', ''ch3''],
      data = [(''time'', [10, 20]), (''ch1'', [1, 2]), (''ch2'', [5, 6]), (''ch3'', [8, 9])],
      last_samples = [(''time'', [30]), (''ch1'', [3]), (''ch2'', [7]), (''ch3'', [0])],
      updated = True\<rparr>"

definition example_lines :: "int Lines" where
  "example_lines =
     \<lparr>self_data = example_data,
      source = [(''time'', [10, 20]), (''ch1'', [1, 2]), (''ch2'', [5, 6]), (''ch3'', [8, 9])],
      n_samples = 3,
      colors = [''#1f77b4'', ''#ff7f0e'', ''#2ca02c''],
      bgcolor = ''white'',
      curdoc = None,
      plots = None,
      calls = []\<rparr>"

definition example_batch :: "int columns" where
  "example_batch = [(''time'', [30, 40]), (''ch1'', [3, 4]), (''ch2'', [7, 8]), (''ch3'', [0, 1])]"

definition example_doc :: "int document" where
  "example_doc = \<lparr>roots = [], title = [], next_tick_callbacks = []\<rparr>"

section \<open>The display window\<close>

lemma length_evict: "length (evict rollover xs) \<le> rollover"
proof (induction rollover xs rule: evict.induct)
  case (1 rollover xs)
  show ?case
  proof (cases "length xs \<le> rollover")
    case True
    then show ?thesis by (simp add: evict.simps)
  next
    case False
    with "1" show ?thesis by (subst evict.simps) simp
  qed
qed

lemma evict_drop: "evict rollover xs = drop (length xs - rollover) xs"
proof (induction rollover xs rule: evict.induct)
  case (1 rollover xs)
  show ?case
  proof (cases "length xs \<le> rollover")
    case True
    then show ?thesis by (simp add: evict.simps)
  next
    case False
    then have ne: "xs \<noteq> []" by auto
    from False "1" have "evict rollover (tl xs) = drop (length (tl xs) - rollover) (tl xs)"
      by simp
    also have "\<dots> = drop (Suc (length xs - 1 - rollover)) xs"
      using ne by (simp add: drop_Suc)
    also have "Suc (length xs - 1 - rollover) = length xs - rollover"
      using False by simp
    finally show ?thesis using False by (subst evict.simps) simp
  qed
qed

lemma length_evict_min: "length (evict rollover xs) = min rollover (length xs)"
  by (simp add: evict_drop)

lemma stream_keys: "map fst (stream src new_data rollover) = map fst src"
  by (induction src) (auto simp: stream_def)

text \<open>
  C1. After \<^verbatim>\<open>_update\<close> has run on a batch, every column of the data source
  holds at most \<^verbatim>\<open>self._n_samples\<close> values: the method passes that attribute
  as the rollover of the stream call.
\<close>

theorem update_window_bounded:
  "\<forall>(name, xs) \<in> set (source (Lines_update data_dict self)). length xs \<le> n_samples self"
  by (auto simp: Lines_update_def stream_def length_evict)

theorem update_window_bounded_witness:
  "n_samples example_lines = 3 \<and>
   source (Lines_update example_batch example_lines) =
     [(''time'', [20, 30, 40]), (''ch1'', [2, 3, 4]), (''ch2'', [6, 7, 8]), (''ch3'', [9, 0, 1])] \<and>
   list_all (\<lambda>(name, xs). length xs \<le> n_samples example_lines)
     (source (Lines_update example_batch example_lines))"
  using update_window_bounded [of example_batch example_lines]
  by (simp add: list_all_iff Lines_update_def stream_def evict_drop example_lines_def
      example_batch_def)

text \<open>
  C2. A window of size 3 that starts empty and receives the single-sample
  batches [1], [2], [3], [4], one \<^verbatim>\<open>_update\<close> each, ends holding [2, 3, 4]
  in that order.
\<close>

theorem update_fifo_window:
  "source (fold Lines_update [[(ch, [1])], [(ch, [2])], [(ch, [3])], [(ch, [4::int])]]
             (self\<lparr>source := [(ch, [])], n_samples := 3\<rparr>)) = [(ch, [2, 3, 4])]"
  by (simp add: Lines_update_def stream_def evict_drop)

lemma map_of_covered:
  assumes "name \<in> fst ` set data_dict"
  shows "\<exists>ys. map_of data_dict name = Some ys \<and> (name, ys) \<in> set data_dict"
proof -
  from assms obtain ys where "map_of data_dict name = Some ys"
    by (metis domD dom_map_of_conv_image_fst)
  then show ?thesis by (auto dest: map_of_SomeD)
qed

lemma stream_equal_lengths:
  assumes src: "equal_lengths src"
    and batch: "equal_lengths data_dict"
    and cov: "covers data_dict src"
  shows "equal_lengths (stream src data_dict rollover)"
proof -
  have len: "length (snd c) = length (snd c')"
    if "c \<in> set (stream src data_dict rollover)" "c' \<in> set (stream src data_dict rollover)"
    for c c'
  proof -
    from that obtain k xs k' xs' where
      kx: "(k, xs) \<in> set src" and
      c: "c = (k, evict rollover
                    (xs @ (case map_of data_dict k of None \<Rightarrow> [] | Some ys \<Rightarrow> ys)))" and
      kx': "(k', xs') \<in> set src" and
      c': "c' = (k', evict rollover
                      (xs' @ (case map_of data_dict k' of None \<Rightarrow> [] | Some ys \<Rightarrow> ys)))"
      by (auto simp: stream_def)
    from kx cov obtain ys where
      ys: "map_of data_dict k = Some ys" "(k, ys) \<in> set data_dict"
      using map_of_covered [of k data_dict] by (force simp: covers_def)
    from kx' cov obtain ys' where
      ys': "map_of data_dict k' = Some ys'" "(k', ys') \<in> set data_dict"
      using map_of_covered [of k' data_dict] by (force simp: covers_def)
    from src kx kx' have "length xs = length xs'" by (force simp: equal_lengths_def)
    moreover from batch ys ys' have "length ys = length ys'" by (force simp: equal_lengths_def)
    ultimately show ?thesis using c c' ys ys' by (simp add: length_evict_min)
  qed
  then show ?thesis unfolding equal_lengths_def by blast
qed

lemma covers_stream: "covers b (stream src data_dict rollover) = covers b src"
proof -
  have "fst ` set (stream src data_dict rollover) = fst ` set src"
    using stream_keys [of src data_dict rollover] by (metis set_map)
  then show ?thesis by (simp add: covers_def)
qed

text \<open>
  C5. The equal length of the columns is an invariant of \<^verbatim>\<open>_update\<close>: from
  a window whose columns have one length, every run of updates whose batches
  have equal-length columns, one for each column of the window, ends in a
  window whose columns have one length. The list of batches is arbitrary, so
  the window after each single update is covered as well.
\<close>

theorem update_equal_lengths:
  assumes "equal_lengths (source self)"
    and "\<forall>data_dict \<in> set batches.
           equal_lengths data_dict \<and> covers data_dict (source self)"
  shows "equal_lengths (source (fold Lines_update batches self))"
  using assms
proof (induction batches arbitrary: self)
  case Nil
  then show ?case by simp
next
  case (Cons b bs)
  have "equal_lengths (source (Lines_update b self))"
    using Cons.prems by (simp add: Lines_update_def stream_equal_lengths)
  moreover have "\<forall>data_dict \<in> set bs.
      equal_lengths data_dict \<and> covers data_dict (source (Lines_update b self))"
    using Cons.prems by (simp add: Lines_update_def covers_stream)
  ultimately show ?case using Cons.IH [of "Lines_update b self"] by simp
qed

theorem update_equal_lengths_witness:
  "equal_lengths (source example_lines) \<and>
   equal_lengths example_batch \<and>
   covers example_batch (source example_lines) \<and>
   equal_lengths (source (fold Lines_update [example_batch, example_batch] example_lines)) \<and>
   source (fold Lines_update [example_batch, example_batch] example_lines) =
     [(''time'', [40, 30, 40]), (''ch1'', [4, 3, 4]), (''ch2'', [8, 7, 8]), (''ch3'', [1, 0, 1])]"
proof -
  have a: "equal_lengths (source example_lines)"
    by (simp add: equal_lengths_def example_lines_def)
  have b: "equal_lengths example_batch"
    by (simp add: equal_lengths_def example_batch_def)
  have c: "covers example_batch (source example_lines)"
    by (simp add: covers_def example_batch_def example_lines_def)
  have d: "\<forall>data_dict \<in> set [example_batch, example_batch].
             equal_lengths data_dict \<and> covers data_dict (source example_lines)"
    using b c by simp
  have e: "source (fold Lines_update [example_batch, example_batch] example_lines) =
     [(''time'', [40, 30, 40]), (''ch1'', [4, 3, 4]), (''ch2'', [8, 7, 8]), (''ch3'', [1, 0, 1])]"
    by (simp add: Lines_update_def stream_def evict_drop example_lines_def example_batch_def)
  from a b c e update_equal_lengths [OF a d] show ?thesis by simp
qed

section \<open>The start command and the layout loop\<close>

lemma run_server_calls:
  "run_server self =
     Running (self\<lparr>calls := calls self @
        [Server_start, IOLoop_add_callback_show ''/'', Thread_start, IOLoop_start]\<rparr>)"
  by (simp add: run_server_def io_loop_start_def update_thread_start_def
      io_loop_add_callback_show_def server_start_def)

lemma set_layout_loop_ok:
  "k + length chs \<le> length cs \<Longrightarrow>
   set_layout_loop cs bg (enumerate k chs) ps =
     Inr (ps @ map (\<lambda>(i, ch). [new_figure bg ch (cs ! i)]) (enumerate k chs))"
proof (induction chs arbitrary: k ps)
  case Nil
  then show ?case by simp
next
  case (Cons ch chs)
  then have "k < length cs" "Suc k + length chs \<le> length cs" by simp_all
  with Cons.IH [of "Suc k" "ps @ [[new_figure bg ch (cs ! k)]]"] show ?case by simp
qed

lemma set_layout_loop_IndexError:
  "k \<le> length cs \<Longrightarrow> length cs < k + length chs \<Longrightarrow>
   set_layout_loop cs bg (enumerate k chs) ps = Inl IndexError"
proof (induction chs arbitrary: k ps)
  case Nil
  then show ?case by simp
next
  case (Cons ch chs)
  show ?case
  proof (cases "k < length cs")
    case True
    with Cons.prems have "Suc k \<le> length cs" "length cs < Suc k + length chs" by simp_all
    with True Cons.IH [of "Suc k" "ps @ [[new_figure bg ch (cs ! k)]]"] show ?thesis by simp
  next
    case False
    then show ?thesis by simp
  qed
qed

lemma set_layout_plots:
  assumes "set_layout self = Inr self'"
  shows "length (ch_names (self_data self)) \<le> length (colors self) \<and>
         plots self' =
           Some (map (\<lambda>(i, ch). [new_figure (bgcolor self) ch (colors self ! i)])
                   (enumerate 0 (ch_names (self_data self))))"
proof (cases "length (ch_names (self_data self)) \<le> length (colors self)")
  case True
  with assms set_layout_loop_ok [of 0 "ch_names (self_data self)" "colors self" "bgcolor self" "[]"]
  show ?thesis by (auto simp: set_layout_def)
next
  case False
  with assms
    set_layout_loop_IndexError [of 0 "colors self" "ch_names (self_data self)" "bgcolor self" "[]"]
  show ?thesis by (simp add: set_layout_def)
qed

lemma app_manager_plots:
  assumes "app_manager doc self = Inr self'"
  shows "length (ch_names (self_data self)) \<le> length (colors self) \<and>
         plots self' =
           Some (map (\<lambda>(i, ch). [new_figure (bgcolor self) ch (colors self ! i)])
                   (enumerate 0 (ch_names (self_data self))))"
proof -
  from assms obtain s1 where s1: "set_layout (self\<lparr>curdoc := Some doc\<rparr>) = Inr s1"
    and s2: "set_callbacks s1 = Inr self'"
    by (auto simp: app_manager_def split: sum.splits)
  from s2 have "plots self' = plots s1"
    by (auto simp: set_callbacks_def split: option.splits)
  with set_layout_plots [OF s1] show ?thesis by simp
qed

lemma app_manager_succeeds:
  assumes "length (ch_names (self_data self)) \<le> length (colors self)"
  shows "\<exists>self'. app_manager doc self = Inr self'"
proof -
  from assms
    set_layout_loop_ok [of 0 "ch_names (self_data self)" "colors self" "bgcolor self" "[]"]
  have "set_layout (self\<lparr>curdoc := Some doc\<rparr>) =
          Inr (self\<lparr>curdoc := Some doc,
                    plots := Some (map (\<lambda>(i, ch). [new_figure (bgcolor self) ch (colors self ! i)])
                                     (enumerate 0 (ch_names (self_data self))))\<rparr>)"
    by (simp add: set_layout_def)
  then show ?thesis
    by (simp add: app_manager_def set_callbacks_def)
qed

section \<open>The forwarding cycle\<close>

lemma get_batch_succeeds:
  "set names \<subseteq> fst ` set view \<Longrightarrow> \<exists>data_dict. get_batch view names acc = Inr data_dict"
proof (induction names arbitrary: acc)
  case Nil
  then show ?case by simp
next
  case (Cons name names)
  then have "name \<in> fst ` set view" by simp
  then obtain col where "map_of view name = Some col"
    by (metis domD dom_map_of_conv_image_fst)
  with Cons show ?case by simp
qed

lemma update_keys_insert: "fst ` set (AList.update k v al) = insert k (fst ` set al)"
  by (induction al) auto

lemma get_batch_entries:
  "get_batch view names acc = Inr data_dict \<Longrightarrow>
     fst ` set data_dict = fst ` set acc \<union> set names \<and>
     (distinct (map fst acc) \<longrightarrow> distinct (map fst data_dict)) \<and>
     (\<forall>name \<in> set names. map_of data_dict name = map_of view name) \<and>
     (\<forall>name. name \<notin> set names \<longrightarrow> map_of data_dict name = map_of acc name)"
proof (induction names arbitrary: acc)
  case Nil
  then show ?case by simp
next
  case (Cons name names)
  from Cons.prems obtain col where
    col: "map_of view name = Some col" and
    rest: "get_batch view names (AList.update name col acc) = Inr data_dict"
    by (auto split: option.splits)
  from Cons.IH [OF rest] have
    ih1: "fst ` set data_dict = fst ` set (AList.update name col acc) \<union> set names" and
    ih2: "distinct (map fst (AList.update name col acc)) \<longrightarrow> distinct (map fst data_dict)" and
    ih3: "\<forall>n \<in> set names. map_of data_dict n = map_of view n" and
    ih4: "\<forall>n. n \<notin> set names \<longrightarrow> map_of data_dict n = map_of (AList.update name col acc) n"
    by blast+
  have keys: "fst ` set data_dict = fst ` set acc \<union> set (name # names)"
    using ih1 by (simp add: update_keys_insert)
  have dist: "distinct (map fst acc) \<longrightarrow> distinct (map fst data_dict)"
    using ih2 by (simp add: AList.distinct_update)
  have inside: "map_of data_dict n = map_of view n" if "n \<in> set (name # names)" for n
  proof (cases "n \<in> set names")
    case True
    with ih3 show ?thesis by blast
  next
    case False
    with that have "n = name" by simp
    moreover from False ih4 have "map_of data_dict n = map_of (AList.update name col acc) n"
      by blast
    ultimately show ?thesis using col by (simp add: AList.update_conv')
  qed
  have outside: "map_of data_dict n = map_of acc n" if "n \<notin> set (name # names)" for n
  proof -
    from that ih4 have "map_of data_dict n = map_of (AList.update name col acc) n" by simp
    with that show ?thesis by (simp add: AList.update_conv')
  qed
  from keys dist inside outside show ?case by blast
qed

lemma example_get_batch:
  "get_batch (last_samples (self_data example_lines)) (dtype_names (self_data example_lines)) []
     = Inr (last_samples example_data)"
  by (simp add: example_lines_def example_data_def)

lemma example_view:
  "set (dtype_names (self_data example_lines)) \<subseteq> fst ` set (last_samples (self_data example_lines))"
  by (simp add: example_lines_def example_data_def)

lemma cycle_result_cleared:
  "get_new_samples_cycle self = Some (Inr self') \<Longrightarrow> \<not> updated (self_data self')"
  by (auto simp: get_new_samples_cycle_def handoff_def updated_clear_def
      split: if_splits sum.splits option.splits py_error.splits)

lemma get_new_samples_cleared:
  "produces \<noteq> [] \<Longrightarrow> get_new_samples produces self = Some (Inr self') \<Longrightarrow>
   \<not> updated (self_data self')"
proof (induction produces arbitrary: self)
  case Nil
  then show ?case by simp
next
  case (Cons produce rest)
  from Cons.prems(2) obtain s1 where
    s1: "get_new_samples_cycle (self\<lparr>self_data := produce (self_data self)\<rparr>) = Some (Inr s1)"
    and r: "get_new_samples rest s1 = Some (Inr self')"
    by (auto split: option.splits sum.splits)
  show ?case
  proof (cases "rest = []")
    case True
    with r cycle_result_cleared [OF s1] show ?thesis by simp
  next
    case False
    from Cons.IH [OF False r] show ?thesis .
  qed
qed

text \<open>
  C4. A forwarding cycle in which the batch could be read ends with the
  readiness signal cleared, whatever the hand-off did: the hand-off either
  raises \<^verbatim>\<open>AttributeError\<close>, which the cycle swallows, or succeeds, and in
  both cases the cycle returns the object with \<^verbatim>\<open>updated\<close> cleared.
\<close>

theorem cycle_clears_readiness:
  assumes flag: "updated (self_data self)"
    and view: "set (dtype_names (self_data self)) \<subseteq> fst ` set (last_samples (self_data self))"
  shows "\<exists>data_dict.
           get_batch (last_samples (self_data self)) (dtype_names (self_data self)) [] =
             Inr data_dict \<and>
           (case handoff data_dict self of
              Inl e \<Rightarrow> e = AttributeError \<and>
                       get_new_samples_cycle self = Some (Inr (updated_clear self))
            | Inr self' \<Rightarrow> get_new_samples_cycle self = Some (Inr (updated_clear self'))) \<and>
           (\<exists>self'. get_new_samples_cycle self = Some (Inr self') \<and>
                    \<not> updated (self_data self'))"
proof -
  from get_batch_succeeds [OF view] obtain data_dict where
    b: "get_batch (last_samples (self_data self)) (dtype_names (self_data self)) [] = Inr data_dict"
    by blast
  show ?thesis
  proof (cases "curdoc self")
    case None
    with b flag show ?thesis
      by (simp add: get_new_samples_cycle_def handoff_def updated_clear_def)
  next
    case (Some doc)
    with b flag show ?thesis
      by (simp add: get_new_samples_cycle_def handoff_def updated_clear_def)
  qed
qed

theorem cycle_clears_readiness_witness:
  "updated (self_data example_lines) \<and>
   set (dtype_names (self_data example_lines)) \<subseteq> fst ` set (last_samples (self_data example_lines)) \<and>
   handoff (last_samples example_data) example_lines = Inl AttributeError \<and>
   get_new_samples_cycle example_lines = Some (Inr (updated_clear example_lines)) \<and>
   \<not> updated (self_data (updated_clear example_lines))"
proof -
  have flag: "updated (self_data example_lines)"
    by (simp add: example_lines_def example_data_def)
  have h: "handoff (last_samples example_data) example_lines = Inl AttributeError"
    by (simp add: handoff_def example_lines_def)
  from cycle_clears_readiness [OF flag example_view] example_get_batch h
  have "get_new_samples_cycle example_lines = Some (Inr (updated_clear example_lines))"
    by simp
  moreover have "\<not> updated (self_data (updated_clear example_lines))"
    by (simp add: updated_clear_def)
  ultimately show ?thesis using flag example_view h by simp
qed

section \<open>A batch submitted before the render context exists\<close>

lemma set_layout_keeps:
  "set_layout self = Inr self' \<Longrightarrow>
     source self' = source self \<and> curdoc self' = curdoc self \<and>
     self_data self' = self_data self \<and> n_samples self' = n_samples self"
  by (auto simp: set_layout_def split: sum.splits)

lemma app_manager_keeps:
  assumes "app_manager doc self = Inr self'"
  shows "source self' = source self \<and> n_samples self' = n_samples self \<and>
         (\<exists>doc'. curdoc self' = Some doc' \<and>
                 next_tick_callbacks doc' = next_tick_callbacks doc)"
proof -
  from assms obtain s1 where s1: "set_layout (self\<lparr>curdoc := Some doc\<rparr>) = Inr s1"
    and s2: "set_callbacks s1 = Inr self'"
    by (auto simp: app_manager_def split: sum.splits)
  from set_layout_keeps [OF s1] have k: "source s1 = source self" "curdoc s1 = Some doc"
    "n_samples s1 = n_samples self" by simp_all
  from s2 k show ?thesis
    by (auto simp: set_callbacks_def split: option.splits)
qed

lemma fold_update_source:
  "source s = source t \<Longrightarrow> n_samples s = n_samples t \<Longrightarrow>
   source (fold Lines_update bs s) = source (fold Lines_update bs t)"
proof (induction bs arbitrary: s t)
  case Nil
  then show ?case by simp
next
  case (Cons b bs)
  have "source (Lines_update b s) = source (Lines_update b t)"
    "n_samples (Lines_update b s) = n_samples (Lines_update b t)"
    using Cons.prems by (simp_all add: Lines_update_def)
  then show ?case
    using Cons.IH [of "Lines_update b s" "Lines_update b t"] by simp
qed

text \<open>
  C3. While \<^verbatim>\<open>_curdoc\<close> is not set, the hand-off of a batch raises
  \<^verbatim>\<open>AttributeError\<close> inside the \<^verbatim>\<open>try\<close>; the cycle does not raise and
  returns the object unchanged but for the cleared readiness signal: the batch
  is kept nowhere. When a connection later sets the context, the pending
  callbacks of that context are the ones it came with, and the next iteration
  of the loop leaves the window as it would be without the dropped batch.
\<close>

theorem no_context_drops_batch:
  assumes ctx: "curdoc self = None"
    and flag: "updated (self_data self)"
    and batch: "get_batch (last_samples (self_data self)) (dtype_names (self_data self)) []
                  = Inr data_dict"
  shows "handoff data_dict self = Inl AttributeError \<and>
         get_new_samples_cycle self = Some (Inr (updated_clear self)) \<and>
         source (updated_clear self) = source self \<and>
         curdoc (updated_clear self) = None \<and>
         io_loop_iteration (updated_clear self) = updated_clear self \<and>
         (\<forall>doc self'. app_manager doc (updated_clear self) = Inr self' \<longrightarrow>
            source self' = source self \<and>
            (\<exists>doc'. curdoc self' = Some doc' \<and>
                    next_tick_callbacks doc' = next_tick_callbacks doc) \<and>
            source (io_loop_iteration self') =
              source (fold Lines_update (next_tick_callbacks doc) self))"
proof -
  have h: "handoff data_dict self = Inl AttributeError"
    using ctx by (simp add: handoff_def)
  have c: "get_new_samples_cycle self = Some (Inr (updated_clear self))"
    using flag batch h by (simp add: get_new_samples_cycle_def)
  have s: "source (updated_clear self) = source self" "curdoc (updated_clear self) = None"
    "n_samples (updated_clear self) = n_samples self"
    using ctx by (simp_all add: updated_clear_def)
  have i: "io_loop_iteration (updated_clear self) = updated_clear self"
    using s by (simp add: io_loop_iteration_def)
  have later: "source self' = source self \<and>
            (\<exists>doc'. curdoc self' = Some doc' \<and>
                    next_tick_callbacks doc' = next_tick_callbacks doc) \<and>
            source (io_loop_iteration self') =
              source (fold Lines_update (next_tick_callbacks doc) self)"
    if a: "app_manager doc (updated_clear self) = Inr self'" for doc self'
  proof -
    from app_manager_keeps [OF a] s obtain doc' where
      k: "source self' = source self" "n_samples self' = n_samples self"
         "curdoc self' = Some doc'" "next_tick_callbacks doc' = next_tick_callbacks doc"
      by auto
    have "source (io_loop_iteration self') =
          source (fold Lines_update (next_tick_callbacks doc)
                    (self'\<lparr>curdoc := Some (doc'\<lparr>next_tick_callbacks := []\<rparr>)\<rparr>))"
      using k by (simp add: io_loop_iteration_def)
    also have "\<dots> = source (fold Lines_update (next_tick_callbacks doc) self)"
      using k by (intro fold_update_source) simp_all
    finally show ?thesis using k by simp
  qed
  from h c s i later show ?thesis by blast
qed

theorem no_context_drops_batch_witness:
  "curdoc example_lines = None \<and>
   updated (self_data example_lines) \<and>
   get_batch (last_samples (self_data example_lines)) (dtype_names (self_data example_lines)) []
     = Inr (last_samples example_data) \<and>
   handoff (last_samples example_data) example_lines = Inl AttributeError \<and>
   get_new_samples_cycle example_lines = Some (Inr (updated_clear example_lines)) \<and>
   (\<exists>self'. app_manager example_doc (updated_clear example_lines) = Inr self' \<and>
            source (io_loop_iteration self') = source example_lines)"
proof -
  have ctx: "curdoc example_lines = None"
    by (simp add: example_lines_def)
  have flag: "updated (self_data example_lines)"
    by (simp add: example_lines_def example_data_def)
  note t = no_context_drops_batch [OF ctx flag example_get_batch]
  have "length (ch_names (self_data (updated_clear example_lines)))
          \<le> length (colors (updated_clear example_lines))"
    by (simp add: updated_clear_def example_lines_def example_data_def)
  from app_manager_succeeds [OF this] obtain self' where
    a: "app_manager example_doc (updated_clear example_lines) = Inr self'"
    by blast
  with t have "source (io_loop_iteration self') =
      source (fold Lines_update (next_tick_callbacks example_doc) example_lines)"
    by blast
  then have "source (io_loop_iteration self') = source example_lines"
    by (simp add: example_doc_def)
  with a have "\<exists>self'. app_manager example_doc (updated_clear example_lines) = Inr self' \<and>
            source (io_loop_iteration self') = source example_lines"
    by blast
  with ctx flag example_get_batch t show ?thesis by simp
qed

section \<open>Colours\<close>

lemma init_state:
  assumes "Lines_init palettes data_dict d n_arg palette_arg bg_arg autostart_arg = Returned self \<or>
           Lines_init palettes data_dict d n_arg palette_arg bg_arg autostart_arg = Running self"
  shows "\<exists>sizes cs.
           map_of palettes (case palette_arg of None \<Rightarrow> ''Category10'' | Some p \<Rightarrow> p)
             = Some sizes \<and>
           map_of sizes (length (ch_names d)) = Some cs \<and>
           colors self = cs \<and> self_data self = d \<and>
           bgcolor self = (case bg_arg of None \<Rightarrow> ''white'' | Some c \<Rightarrow> c)"
proof -
  obtain cs where
    cs: "lookup_colors palettes (case palette_arg of None \<Rightarrow> ''Category10'' | Some p \<Rightarrow> p)
           (length (ch_names d)) = Inr cs"
    using assms
    by (cases "lookup_colors palettes
                 (case palette_arg of None \<Rightarrow> ''Category10'' | Some p \<Rightarrow> p)
                 (length (ch_names d))")
       (auto simp: Lines_init_def)
  then obtain sizes where
    "map_of palettes (case palette_arg of None \<Rightarrow> ''Category10'' | Some p \<Rightarrow> p) = Some sizes"
    "map_of sizes (length (ch_names d)) = Some cs"
    by (auto simp: lookup_colors_def split: option.splits)
  moreover from assms cs have "colors self = cs \<and> self_data self = d \<and>
           bgcolor self = (case bg_arg of None \<Rightarrow> ''white'' | Some c \<Rightarrow> c)"
    by (cases "case autostart_arg of None \<Rightarrow> True | Some a \<Rightarrow> a")
       (auto simp: Lines_init_def run_server_calls)
  ultimately show ?thesis by blast
qed

lemma example_init:
  "Lines_init example_palettes (source example_lines) example_data (Some 3) None None (Some False)
     = Returned example_lines"
  by (simp add: Lines_init_def lookup_colors_def example_palettes_def Category10_def
      Category10_10_def example_data_def example_lines_def)

text \<open>
  C7. For an object the constructor built with a palette name, the figure at
  index \<open>i\<close> that \<^verbatim>\<open>_set_layout\<close> makes draws channel \<open>i\<close> in the colour at
  index \<open>i\<close> of the table entry for that name and the number of channels. The
  colour is a function of the table, the name, the count and the index alone,
  so every run with the same name and count gives the same colour.
\<close>

theorem color_by_channel_index:
  assumes init:
      "Lines_init palettes data_dict d n_arg palette_arg bg_arg autostart_arg = Returned self \<or>
       Lines_init palettes data_dict d n_arg palette_arg bg_arg autostart_arg = Running self"
    and layout: "app_manager doc self = Inr self'"
    and i: "i < length (ch_names d)"
  shows "\<exists>sizes cs ps.
           map_of palettes (case palette_arg of None \<Rightarrow> ''Category10'' | Some p \<Rightarrow> p)
             = Some sizes \<and>
           map_of sizes (length (ch_names d)) = Some cs \<and>
           i < length cs \<and>
           plots self' = Some ps \<and>
           length ps = length (ch_names d) \<and>
           ps ! i = [new_figure (bgcolor self) (ch_names d ! i) (cs ! i)] \<and>
           map line_color (glyphs (hd (ps ! i))) = [cs ! i]"
proof -
  from init_state [OF init] obtain sizes cs where
    s: "map_of palettes (case palette_arg of None \<Rightarrow> ''Category10'' | Some p \<Rightarrow> p) = Some sizes"
       "map_of sizes (length (ch_names d)) = Some cs"
       "colors self = cs" "self_data self = d"
    by blast
  define ps where
    "ps = map (\<lambda>(i, ch). [new_figure (bgcolor self) ch (cs ! i)]) (enumerate 0 (ch_names d))"
  from app_manager_plots [OF layout] s have
    le: "length (ch_names d) \<le> length cs" and p: "plots self' = Some ps"
    by (simp_all add: ps_def)
  have len: "length ps = length (ch_names d)" by (simp add: ps_def)
  have at: "ps ! i = [new_figure (bgcolor self) (ch_names d ! i) (cs ! i)]"
    using i by (simp add: ps_def nth_enumerate_eq)
  have col: "map line_color (glyphs (hd (ps ! i))) = [cs ! i]"
    by (simp add: at new_figure_def)
  from i le have "i < length cs" by simp
  with s(1) s(2) p len at col show ?thesis
    by (intro exI [of _ sizes] exI [of _ cs] exI [of _ ps]) simp
qed

theorem color_by_channel_index_witness:
  "Lines_init example_palettes (source example_lines) example_data (Some 3) None None (Some False)
     = Returned example_lines \<and>
   (1::nat) < length (ch_names example_data) \<and>
   (\<exists>self' ps. app_manager example_doc example_lines = Inr self' \<and>
      plots self' = Some ps \<and>
      ps ! 1 = [new_figure ''white'' ''ch2'' ''#ff7f0e''] \<and>
      map line_color (glyphs (hd (ps ! 1))) = [''#ff7f0e''])"
proof -
  have i: "(1::nat) < length (ch_names example_data)"
    by (simp add: example_data_def)
  have "length (ch_names (self_data example_lines)) \<le> length (colors example_lines)"
    by (simp add: example_lines_def example_data_def)
  from app_manager_succeeds [OF this] obtain self' where
    a: "app_manager example_doc example_lines = Inr self'"
    by blast
  from color_by_channel_index [OF disjI1 [OF example_init] a i] obtain sizes cs ps where
    r: "map_of example_palettes ''Category10'' = Some sizes"
       "map_of sizes (length (ch_names example_data)) = Some cs"
       "plots self' = Some ps"
       "ps ! 1 = [new_figure (bgcolor example_lines) (ch_names example_data ! 1) (cs ! 1)]"
       "map line_color (glyphs (hd (ps ! 1))) = [cs ! 1]"
    by auto
  from r(1) have "sizes = Category10" by (simp add: example_palettes_def)
  with r(2) have "cs = take 3 Category10_10"
    by (simp add: Category10_def example_data_def)
  then have c: "cs ! 1 = ''#ff7f0e''" by (simp add: Category10_10_def)
  have "ps ! 1 = [new_figure ''white'' ''ch2'' ''#ff7f0e'']"
    using r(4) c by (simp add: example_lines_def example_data_def)
  moreover have "map line_color (glyphs (hd (ps ! 1))) = [''#ff7f0e'']"
    using r(5) c by simp
  ultimately have "\<exists>self' ps. app_manager example_doc example_lines = Inr self' \<and>
      plots self' = Some ps \<and>
      ps ! 1 = [new_figure ''white'' ''ch2'' ''#ff7f0e''] \<and>
      map line_color (glyphs (hd (ps ! 1))) = [''#ff7f0e'']"
    using a r(3) by (intro exI [of _ self'] exI [of _ ps]) simp
  with example_init i show ?thesis by simp
qed

section \<open>Construction and the start command\<close>

text \<open>
  C8. \<^verbatim>\<open>run_server\<close> calls, in this order, \<^verbatim>\<open>server.start()\<close>,
  \<^verbatim>\<open>io_loop.add_callback(server.show, '/')\<close>, \<^verbatim>\<open>_update_thread.start()\<close>
  and \<^verbatim>\<open>io_loop.start()\<close>, and control stays in the last call. A
  construction that finds its colours and has \<^verbatim>\<open>autostart\<close> omitted or true
  makes exactly these calls and stays in the loop; with \<^verbatim>\<open>autostart=False\<close>
  it returns the object and makes no call.
\<close>

theorem start_command_order:
  "run_server self =
     Running (self\<lparr>calls := calls self @
        [Server_start, IOLoop_add_callback_show ''/'', Thread_start, IOLoop_start]\<rparr>) \<and>
   (\<forall>cs. lookup_colors palettes (case palette_arg of None \<Rightarrow> ''Category10'' | Some p \<Rightarrow> p)
           (length (ch_names d)) = Inr cs \<longrightarrow>
      (autostart_arg \<noteq> Some False \<longrightarrow>
         (\<exists>self'. Lines_init palettes data_dict d n_arg palette_arg bg_arg autostart_arg
                    = Running self' \<and>
            calls self' =
              [Server_start, IOLoop_add_callback_show ''/'', Thread_start, IOLoop_start])) \<and>
      (autostart_arg = Some False \<longrightarrow>
         (\<exists>self'. Lines_init palettes data_dict d n_arg palette_arg bg_arg autostart_arg
                    = Returned self' \<and>
            calls self' = [])))"
proof -
  have auto_on:
    "\<exists>self'. Lines_init palettes data_dict d n_arg palette_arg bg_arg autostart_arg = Running self' \<and>
       calls self' = [Server_start, IOLoop_add_callback_show ''/'', Thread_start, IOLoop_start]"
    if "lookup_colors palettes (case palette_arg of None \<Rightarrow> ''Category10'' | Some p \<Rightarrow> p)
          (length (ch_names d)) = Inr cs"
      and "autostart_arg \<noteq> Some False" for cs
  proof -
    from that(2) have "(case autostart_arg of None \<Rightarrow> True | Some a \<Rightarrow> a)"
      by (cases autostart_arg) auto
    with that(1) show ?thesis
      by (simp add: Lines_init_def run_server_calls)
  qed
  have auto_off:
    "\<exists>self'. Lines_init palettes data_dict d n_arg palette_arg bg_arg autostart_arg = Returned self' \<and>
       calls self' = []"
    if "lookup_colors palettes (case palette_arg of None \<Rightarrow> ''Category10'' | Some p \<Rightarrow> p)
          (length (ch_names d)) = Inr cs"
      and "autostart_arg = Some False" for cs
    using that by (simp add: Lines_init_def)
  from run_server_calls [of self] auto_on auto_off show ?thesis by blast
qed

theorem start_command_order_witness:
  "lookup_colors example_palettes ''Category10'' (length (ch_names example_data))
     = Inr [''#1f77b4'', ''#ff7f0e'', ''#2ca02c''] \<and>
   (\<exists>self'. Lines_init example_palettes (source example_lines) example_data None None None None
              = Running self' \<and>
      calls self' = [Server_start, IOLoop_add_callback_show ''/'', Thread_start, IOLoop_start]) \<and>
   (\<exists>self'. Lines_init example_palettes (source example_lines) example_data None None None
              (Some False) = Returned self' \<and>
      calls self' = [])"
proof -
  have l: "lookup_colors example_palettes (case None of None \<Rightarrow> ''Category10'' | Some p \<Rightarrow> p)
             (length (ch_names example_data)) = Inr [''#1f77b4'', ''#ff7f0e'', ''#2ca02c'']"
    by (simp add: lookup_colors_def example_palettes_def Category10_def Category10_10_def
        example_data_def)
  from start_command_order
    [of example_lines example_palettes None example_data None "source example_lines" None None]
    l
  have on: "\<exists>self'. Lines_init example_palettes (source example_lines) example_data None None None None
              = Running self' \<and>
      calls self' = [Server_start, IOLoop_add_callback_show ''/'', Thread_start, IOLoop_start]"
    by simp
  from start_command_order
    [of example_lines example_palettes None example_data "Some False" "source example_lines"
        None None]
    l
  have off: "\<exists>self'. Lines_init example_palettes (source example_lines) example_data None None None
              (Some False) = Returned self' \<and> calls self' = []"
    by simp
  from l on off show ?thesis by simp
qed

text \<open>
  C9. The constructor reads the colours at the exact number of channel names:
  when the chosen palette has no entry of that size the construction raises
  \<^verbatim>\<open>KeyError\<close>, and when it has one the object holds exactly that entry.
\<close>

theorem init_raises_KeyError:
  assumes "map_of palettes (case palette_arg of None \<Rightarrow> ''Category10'' | Some p \<Rightarrow> p)
             = Some sizes"
  shows "(map_of sizes (length (ch_names d)) = None \<longrightarrow>
            Lines_init palettes data_dict d n_arg palette_arg bg_arg autostart_arg
              = Raised KeyError) \<and>
         (\<forall>cs. map_of sizes (length (ch_names d)) = Some cs \<longrightarrow>
            (\<exists>self. (Lines_init palettes data_dict d n_arg palette_arg bg_arg autostart_arg
                       = Returned self \<or>
                     Lines_init palettes data_dict d n_arg palette_arg bg_arg autostart_arg
                       = Running self) \<and>
                    colors self = cs))"
proof -
  have missing: "Lines_init palettes data_dict d n_arg palette_arg bg_arg autostart_arg
                   = Raised KeyError"
    if "map_of sizes (length (ch_names d)) = None"
    using assms that by (simp add: Lines_init_def lookup_colors_def)
  have present:
    "\<exists>self. (Lines_init palettes data_dict d n_arg palette_arg bg_arg autostart_arg
                = Returned self \<or>
              Lines_init palettes data_dict d n_arg palette_arg bg_arg autostart_arg
                = Running self) \<and>
             colors self = cs"
    if "map_of sizes (length (ch_names d)) = Some cs" for cs
    using assms that
    by (cases "case autostart_arg of None \<Rightarrow> True | Some a \<Rightarrow> a")
       (simp_all add: Lines_init_def lookup_colors_def run_server_calls)
  from missing present show ?thesis by blast
qed

theorem init_raises_KeyError_witness:
  "map_of example_palettes ''Category10'' = Some Category10 \<and>
   map_of Category10 (length (ch_names (example_data\<lparr>ch_names := [''ch1'', ''ch2'']\<rparr>))) = None \<and>
   Lines_init example_palettes (source example_lines)
     (example_data\<lparr>ch_names := [''ch1'', ''ch2'']\<rparr>) None None None None = Raised KeyError"
proof -
  have p: "map_of example_palettes (case None of None \<Rightarrow> ''Category10'' | Some p \<Rightarrow> p)
             = Some Category10"
    by (simp add: example_palettes_def)
  have m: "map_of Category10 (length (ch_names (example_data\<lparr>ch_names := [''ch1'', ''ch2'']\<rparr>)))
             = None"
    by (simp add: Category10_def)
  from init_raises_KeyError [OF p, of "example_data\<lparr>ch_names := [''ch1'', ''ch2'']\<rparr>"
      "source example_lines" None None None] m
  have "Lines_init example_palettes (source example_lines)
     (example_data\<lparr>ch_names := [''ch1'', ''ch2'']\<rparr>) None None None None = Raised KeyError"
    by simp
  with p m show ?thesis by simp
qed

section \<open>The forwarded batch\<close>

text \<open>
  C10. In every cycle that reads its batch, the dictionary built from
  \<^verbatim>\<open>dtype.names\<close> has exactly those names as its keys, each once, and
  holds for each name the column that \<^verbatim>\<open>last_samples\<close> holds for it. A
  cycle that finds the render context queues this dictionary behind the
  pending callbacks; a cycle that finds none queues nothing. This covers the
  name \<open>time\<close> whenever \<^verbatim>\<open>dtype.names\<close> lists it.
\<close>

theorem forwarded_batch_fields:
  assumes flag: "updated (self_data self)"
    and view: "set (dtype_names (self_data self)) \<subseteq> fst ` set (last_samples (self_data self))"
  shows "\<exists>data_dict.
           get_batch (last_samples (self_data self)) (dtype_names (self_data self)) [] =
             Inr data_dict \<and>
           fst ` set data_dict = set (dtype_names (self_data self)) \<and>
           distinct (map fst data_dict) \<and>
           (\<forall>name \<in> set (dtype_names (self_data self)).
              map_of data_dict name = map_of (last_samples (self_data self)) name \<and>
              map_of data_dict name \<noteq> None) \<and>
           (case curdoc self of
              None \<Rightarrow> get_new_samples_cycle self = Some (Inr (updated_clear self))
            | Some doc \<Rightarrow>
                get_new_samples_cycle self =
                  Some (Inr (updated_clear
                    (self\<lparr>curdoc := Some (add_next_tick_callback data_dict doc)\<rparr>))) \<and>
                next_tick_callbacks (add_next_tick_callback data_dict doc) =
                  next_tick_callbacks doc @ [data_dict])"
proof -
  from get_batch_succeeds [OF view] obtain data_dict where
    b: "get_batch (last_samples (self_data self)) (dtype_names (self_data self)) [] = Inr data_dict"
    by blast
  from get_batch_entries [OF b] have
    e: "fst ` set data_dict = set (dtype_names (self_data self))"
       "distinct (map fst data_dict)"
       "\<forall>name \<in> set (dtype_names (self_data self)).
          map_of data_dict name = map_of (last_samples (self_data self)) name"
    by simp_all
  have ne: "map_of data_dict name \<noteq> None"
    if "name \<in> set (dtype_names (self_data self))" for name
    using that e(1) by (metis domIff dom_map_of_conv_image_fst)
  have f: "\<forall>name \<in> set (dtype_names (self_data self)).
              map_of data_dict name = map_of (last_samples (self_data self)) name \<and>
              map_of data_dict name \<noteq> None"
    using e(3) ne by simp
  have c: "case curdoc self of
              None \<Rightarrow> get_new_samples_cycle self = Some (Inr (updated_clear self))
            | Some doc \<Rightarrow>
                get_new_samples_cycle self =
                  Some (Inr (updated_clear
                    (self\<lparr>curdoc := Some (add_next_tick_callback data_dict doc)\<rparr>))) \<and>
                next_tick_callbacks (add_next_tick_callback data_dict doc) =
                  next_tick_callbacks doc @ [data_dict]"
    using flag b
    by (cases "curdoc self")
       (simp_all add: get_new_samples_cycle_def handoff_def add_next_tick_callback_def)
  from b e(1) e(2) f c show ?thesis
    by (intro exI [of _ data_dict] conjI)
qed

theorem forwarded_batch_fields_witness:
  "updated (self_data (example_lines\<lparr>curdoc := Some example_doc\<rparr>)) \<and>
   set (dtype_names (self_data (example_lines\<lparr>curdoc := Some example_doc\<rparr>)))
     \<subseteq> fst ` set (last_samples (self_data (example_lines\<lparr>curdoc := Some example_doc\<rparr>))) \<and>
   get_batch (last_samples (self_data (example_lines\<lparr>curdoc := Some example_doc\<rparr>)))
     (dtype_names (self_data (example_lines\<lparr>curdoc := Some example_doc\<rparr>))) [] =
     Inr [(''time'', [30]), (''ch1'', [3]), (''ch2'', [7]), (''ch3'', [0])] \<and>
   get_new_samples_cycle (example_lines\<lparr>curdoc := Some example_doc\<rparr>) =
     Some (Inr (updated_clear (example_lines\<lparr>curdoc := Some
       (example_doc\<lparr>next_tick_callbacks :=
          [[(''time'', [30]), (''ch1'', [3]), (''ch2'', [7]), (''ch3'', [0])]]\<rparr>)\<rparr>)))"
proof -
  have flag: "updated (self_data (example_lines\<lparr>curdoc := Some example_doc\<rparr>))"
    by (simp add: example_lines_def example_data_def)
  have view: "set (dtype_names (self_data (example_lines\<lparr>curdoc := Some example_doc\<rparr>)))
     \<subseteq> fst ` set (last_samples (self_data (example_lines\<lparr>curdoc := Some example_doc\<rparr>)))"
    by (simp add: example_lines_def example_data_def)
  have g: "get_batch (last_samples (self_data (example_lines\<lparr>curdoc := Some example_doc\<rparr>)))
     (dtype_names (self_data (example_lines\<lparr>curdoc := Some example_doc\<rparr>))) [] =
     Inr [(''time'', [30]), (''ch1'', [3]), (''ch2'', [7]), (''ch3'', [0])]"
    by (simp add: example_lines_def example_data_def)
  from forwarded_batch_fields [OF flag view] g
  have "get_new_samples_cycle (example_lines\<lparr>curdoc := Some example_doc\<rparr>) =
     Some (Inr (updated_clear (example_lines\<lparr>curdoc := Some
       (add_next_tick_callback [(''time'', [30]), (''ch1'', [3]), (''ch2'', [7]), (''ch3'', [0])]
          example_doc)\<rparr>)))"
    by simp
  then have "get_new_samples_cycle (example_lines\<lparr>curdoc := Some example_doc\<rparr>) =
     Some (Inr (updated_clear (example_lines\<lparr>curdoc := Some
       (example_doc\<lparr>next_tick_callbacks :=
          [[(''time'', [30]), (''ch1'', [3]), (''ch2'', [7]), (''ch3'', [0])]]\<rparr>)\<rparr>)))"
    by (simp add: add_next_tick_callback_def example_doc_def)
  with flag view g show ?thesis by simp
qed

end
